theory Spec2Isabelle
  imports Main "HOL-Library.AList" "HOL-Library.Multiset"
begin

section \<open>Strings and JavaScript primitives\<close>

text \<open>
  The handler in \<^verbatim>\<open>src/app/api/github-secrets/route.ts\<close> works on JavaScript strings.
  A string is modelled as a \<^typ>\<open>string\<close>, each \<^typ>\<open>char\<close> standing for one UTF-16 code
  unit in the range 0..255; inputs containing code units above 255 are outside the model.
  Calls of \<^verbatim>\<open>console.log\<close> and \<^verbatim>\<open>console.error\<close> are left out.
\<close>

abbreviation dq :: char where "dq \<equiv> CHR 0x22"

abbreviation sq :: char where "sq \<equiv> CHR 0x27"

abbreviation bsl :: char where "bsl \<equiv> CHR 0x5C"

abbreviation nl :: char where "nl \<equiv> CHR 0x0A"

abbreviation cr :: char where "cr \<equiv> CHR 0x0D"

text \<open>\<^verbatim>\<open>s.split('\n')\<close>: always at least one piece.\<close>

fun split_nl :: "string \<Rightarrow> string list" where
  "split_nl [] = [] # []"
| "split_nl (c # cs) =
     (if c = nl then [] # split_nl cs
      else (case split_nl cs of [] \<Rightarrow> [c] # [] | l # ls \<Rightarrow> (c # l) # ls))"

text \<open>
  \<^verbatim>\<open>String.prototype.trim\<close> removes white space and line terminators from both ends; among
  the code units 0..255 these are TAB, LF, VT, FF, CR, SPACE and NBSP.
\<close>

definition is_ws :: "char \<Rightarrow> bool" where
  "is_ws c = (c = CHR 0x09 \<or> c = nl \<or> c = CHR 0x0B \<or> c = CHR 0x0C \<or> c = cr
              \<or> c = CHR 0x20 \<or> c = CHR 0xA0)"

definition trim :: "string \<Rightarrow> string" where
  "trim s = rev (dropWhile is_ws (rev (dropWhile is_ws s)))"

definition startsWith :: "string \<Rightarrow> string \<Rightarrow> bool" where
  "startsWith s p = (take (length p) s = p)"

definition endsWith :: "string \<Rightarrow> string \<Rightarrow> bool" where
  "endsWith s p = (length p \<le> length s \<and> drop (length s - length p) s = p)"

text \<open>The character class \<^verbatim>\<open>[A-Za-z0-9_]\<close>.\<close>

definition is_key_char :: "char \<Rightarrow> bool" where
  "is_key_char c =
     (let n = (of_char c :: nat)
      in (65 \<le> n \<and> n \<le> 90) \<or> (97 \<le> n \<and> n \<le> 122) \<or> (48 \<le> n \<and> n \<le> 57) \<or> n = 95)"

text \<open>The regular expression dot excludes line terminators (LF and CR among 0..255).\<close>

definition is_line_term :: "char \<Rightarrow> bool" where
  "is_line_term c = (c = nl \<or> c = cr)"

text \<open>
  \<^verbatim>\<open>line.match(/^([A-Za-z0-9_]+)=(.*)/)\<close>: the key is the longest run of key characters
  (an equals sign is not a key character, so no shorter run can match), it must be
  non-empty and followed by an equals sign; the value is the rest up to the first line
  terminator.
\<close>

definition match_kv :: "string \<Rightarrow> (string \<times> string) option" where
  "match_kv line =
     (let k = takeWhile is_key_char line; rest = dropWhile is_key_char line
      in (case rest of
            [] \<Rightarrow> None
          | c # after \<Rightarrow>
              if k \<noteq> [] \<and> c = CHR ''=''
              then Some (k, takeWhile (\<lambda>x. \<not> is_line_term x) after)
              else None))"

text \<open>
  \<^verbatim>\<open>value.replace(/^["'](.*)["']$/, '$1')\<close>: the pattern matches the whole string when it has
  at least two characters, a quote character at each end (either kind, independently) and
  no line terminator in between; the replacement is the part in between.
\<close>

definition is_quote :: "char \<Rightarrow> bool" where
  "is_quote c = (c = dq \<or> c = sq)"

definition strip_quotes :: "string \<Rightarrow> string" where
  "strip_quotes v =
     (if 2 \<le> length v \<and> is_quote (hd v) \<and> is_quote (last v)
         \<and> list_all (\<lambda>x. \<not> is_line_term x) (butlast (tl v))
      then butlast (tl v) else v)"

section \<open>Plain objects used as dictionaries\<close>

text \<open>
  \<^verbatim>\<open>const result: Record<string, string> = {}\<close> is an ordinary object. Its own properties are
  kept as an association list in creation order. \<^verbatim>\<open>result[k] = v\<close> overwrites an existing
  own property in place and appends a new one otherwise, except for the key
  \<^verbatim>\<open>__proto__\<close>: that assignment reaches the accessor inherited from
  \<^verbatim>\<open>Object.prototype\<close>, whose setter ignores a string argument, so no own property is
  created.
\<close>

type_synonym jsobj = "(string \<times> string) list"

definition obj_set :: "jsobj \<Rightarrow> string \<Rightarrow> string \<Rightarrow> jsobj" where
  "obj_set obj k v = (if k = ''__proto__'' then obj else AList.update k v obj)"

text \<open>
  \<^verbatim>\<open>Object.entries\<close> lists own properties with the array-index keys first, in ascending
  numeric order, then the other keys in creation order. An array index is a canonical
  decimal numeral not above \<open>2^32 - 2\<close>.
\<close>

definition is_digit :: "char \<Rightarrow> bool" where
  "is_digit c = (let n = (of_char c :: nat) in 48 \<le> n \<and> n \<le> 57)"

definition digits_val :: "string \<Rightarrow> int" where
  "digits_val k = foldl (\<lambda>acc c. 10 * acc + (of_char c - 48)) 0 k"

definition is_array_index :: "string \<Rightarrow> bool" where
  "is_array_index k =
     (k \<noteq> [] \<and> list_all is_digit k \<and> (k = ''0'' \<or> hd k \<noteq> CHR ''0'')
      \<and> digits_val k \<le> 4294967294)"

definition Object_entries :: "jsobj \<Rightarrow> (string \<times> string) list" where
  "Object_entries obj =
     sort_key (\<lambda>e. digits_val (fst e)) (filter (\<lambda>e. is_array_index (fst e)) obj)
     @ filter (\<lambda>e. \<not> is_array_index (fst e)) obj"

section \<open>parseEnvContent\<close>

record pstate =
  result :: jsobj
  currentKey :: string
  inValue :: bool
  curValue :: string

definition init_pstate :: pstate where
  "init_pstate = \<lparr>result = [], currentKey = [], inValue = False, curValue = []\<rparr>"

text \<open>One iteration of the loop over the lines; \<open>curValue\<close> is the source's \<^verbatim>\<open>value\<close>.\<close>

definition step :: "pstate \<Rightarrow> string \<Rightarrow> pstate" where
  "step s raw =
     (let line = trim raw in
      if line = [] \<or> startsWith line ''#'' then s
      else if \<not> inValue s then
        (case match_kv line of
           Some (k, v) \<Rightarrow>
             if startsWith v [dq] \<and> \<not> endsWith v [dq] \<and> \<not> endsWith v [bsl, dq]
             then s\<lparr>currentKey := k, inValue := True, curValue := drop 1 v\<rparr>
             else s\<lparr>result := obj_set (result s) k (strip_quotes v),
                    currentKey := [], curValue := []\<rparr>
         | None \<Rightarrow> s)
      else if endsWith line [dq] \<and> \<not> endsWith line [bsl, dq]
        then s\<lparr>result := obj_set (result s) (currentKey s) (curValue s @ [nl] @ butlast line),
               currentKey := [], inValue := False, curValue := []\<rparr>
        else s\<lparr>curValue := curValue s @ [nl] @ line\<rparr>)"

text \<open>The test after the loop: an unterminated multi-line value is stored as it is.\<close>

definition finish :: "pstate \<Rightarrow> jsobj" where
  "finish s =
     (if inValue s \<and> currentKey s \<noteq> [] then obj_set (result s) (currentKey s) (curValue s)
      else result s)"

definition parseEnvContent :: "string \<Rightarrow> jsobj" where
  "parseEnvContent envContent = finish (foldl step init_pstate (split_nl envContent))"

text \<open>
  The assignment \<^verbatim>\<open>result[k] = v\<close> that one iteration of the loop of \<^verbatim>\<open>parseEnvContent\<close>
  executes, if any, and the list of all assignments of a run in the order of execution,
  the one after the loop included.
\<close>

definition assignment :: "pstate \<Rightarrow> string \<Rightarrow> (string \<times> string) option" where
  "assignment s raw =
     (let line = trim raw in
      if line = [] \<or> startsWith line ''#'' then None
      else if \<not> inValue s then
        (case match_kv line of
           Some (k, v) \<Rightarrow>
             if startsWith v [dq] \<and> \<not> endsWith v [dq] \<and> \<not> endsWith v [bsl, dq]
             then None
             else Some (k, strip_quotes v)
         | None \<Rightarrow> None)
      else if endsWith line [dq] \<and> \<not> endsWith line [bsl, dq]
        then Some (currentKey s, curValue s @ [nl] @ butlast line)
        else None)"

fun assignments :: "pstate \<Rightarrow> string list \<Rightarrow> (string \<times> string) list" where
  "assignments s [] =
     (if inValue s \<and> currentKey s \<noteq> [] then [(currentKey s, curValue s)] else [])"
| "assignments s (raw # rest) =
     (case assignment s raw of None \<Rightarrow> [] | Some kv \<Rightarrow> [kv]) @ assignments (step s raw) rest"

section \<open>The outside world\<close>

text \<open>
  A thrown value is an \<^verbatim>\<open>Error\<close> with its message or something else; the handlers only
  distinguish the two (\<^verbatim>\<open>error instanceof Error ? error.message : 'Unknown error'\<close>).
\<close>

datatype js_exn = JsError string | JsNonError

definition error_message :: "js_exn \<Rightarrow> string" where
  "error_message e = (case e of JsError m \<Rightarrow> m | JsNonError \<Rightarrow> ''Unknown error'')"

text \<open>
  Values read from a parsed JSON body. An object is the list of its properties, each name
  once. \<open>JOther\<close> stands for numbers, booleans and arrays, none of which has a property
  \<^verbatim>\<open>key\<close> or \<^verbatim>\<open>key_id\<close>.
\<close>

datatype jsval = JUndefined | JNull | JString string | JObject "(string \<times> jsval) list" | JOther

text \<open>Property access \<^verbatim>\<open>data.name\<close>: a TypeError on null and undefined.\<close>

definition get_prop :: "jsval \<Rightarrow> string \<Rightarrow> js_exn + jsval" where
  "get_prop d name =
     (case d of
        JUndefined \<Rightarrow> Inl (JsError ''Cannot read properties of undefined'')
      | JNull \<Rightarrow> Inl (JsError ''Cannot read properties of null'')
      | JObject fs \<Rightarrow> Inr (case map_of fs name of Some v \<Rightarrow> v | None \<Rightarrow> JUndefined)
      | _ \<Rightarrow> Inr JUndefined)"

text \<open>
  A response as the code reads it: \<^verbatim>\<open>status\<close>, \<^verbatim>\<open>statusText\<close>, and the outcomes of
  \<^verbatim>\<open>response.json()\<close> and \<^verbatim>\<open>response.text()\<close>, either of which may throw.
\<close>

record response =
  status :: int
  statusText :: string
  json_body :: "js_exn + jsval"
  text_body :: "js_exn + string"

datatype http_method = GET | PUT

text \<open>The object passed to \<^verbatim>\<open>JSON.stringify\<close> in \<^verbatim>\<open>setSecret\<close>.\<close>

record requestBody =
  encrypted_value :: string
  key_id :: jsval
  visibility :: "string option"

record request =
  url :: string
  http_method :: http_method
  headers :: "(string \<times> string) list"
  body :: "requestBody option"

text \<open>
  What the handler does to the outside world is recorded in a trace: every call of
  \<^verbatim>\<open>fetch\<close> with its request and every call of \<^verbatim>\<open>encryptValue\<close> with its arguments.
  The world answers a call depending on the call and on the trace so far; a rejected
  \<^verbatim>\<open>fetch\<close> (no response at all) and a failing encryption are \<open>Inl\<close>. The sealed-box
  primitive of libsodium is not part of the repository and is a parameter of the model.
\<close>

datatype event = Fetch request | Encrypt string jsval

record world =
  fetch_fn :: "event list \<Rightarrow> request \<Rightarrow> js_exn + response"
  encrypt_fn :: "event list \<Rightarrow> string \<Rightarrow> jsval \<Rightarrow> js_exn + string"

text \<open>\<^verbatim>\<open>const [org, repoName] = repo.split('/')\<close>: the part before the first slash.\<close>

definition org_of :: "string \<Rightarrow> string" where
  "org_of repo = takeWhile (\<lambda>c. c \<noteq> CHR ''/'') repo"

text \<open>Events that touch a secret: an encryption or a write request.\<close>

definition is_secret_op :: "event \<Rightarrow> bool" where
  "is_secret_op ev = (case ev of Encrypt v k \<Rightarrow> True | Fetch rq \<Rightarrow> http_method rq = PUT)"

text \<open>A write request of the organization shape: the organization-scoped URL and a body
  with the visibility field set to \<^verbatim>\<open>all\<close>.\<close>

definition is_org_push :: "string \<Rightarrow> request \<Rightarrow> bool" where
  "is_org_push repo rq =
     (http_method rq = PUT
      \<and> startsWith (url rq) (''https://api.github.com/orgs/'' @ org_of repo @ ''/actions/secrets/'')
      \<and> (case body rq of None \<Rightarrow> False | Some b \<Rightarrow> visibility b = Some ''all''))"

definition org_event :: "string \<Rightarrow> event \<Rightarrow> bool" where
  "org_event repo ev = (case ev of Encrypt v k \<Rightarrow> True | Fetch rq \<Rightarrow> is_org_push repo rq)"

section \<open>getPublicKey\<close>

record keyInfo =
  publicKey :: jsval
  keyId :: jsval
  isOrg :: bool

definition repo_key_request :: "string \<Rightarrow> string \<Rightarrow> request" where
  "repo_key_request repo pat =
     \<lparr>url = ''https://api.github.com/repos/'' @ repo @ ''/actions/secrets/public-key'',
      http_method = GET,
      headers = [(''Authorization'', ''token '' @ pat),
                 (''Accept'', ''application/vnd.github.v3+json'')],
      body = None\<rparr>"

definition org_key_request :: "string \<Rightarrow> string \<Rightarrow> request" where
  "org_key_request repo pat =
     \<lparr>url = ''https://api.github.com/orgs/'' @ org_of repo @ ''/actions/secrets/public-key'',
      http_method = GET,
      headers = [(''Authorization'', ''token '' @ pat),
                 (''Accept'', ''application/vnd.github.v3+json'')],
      body = None\<rparr>"

text \<open>The object literal \<^verbatim>\<open>{ publicKey: data.key, keyId: data.key_id, isOrg: b }\<close>.\<close>

definition key_info_of :: "jsval \<Rightarrow> bool \<Rightarrow> js_exn + keyInfo" where
  "key_info_of data b =
     (case get_prop data ''key'' of
        Inl e \<Rightarrow> Inl e
      | Inr k \<Rightarrow>
          (case get_prop data ''key_id'' of
             Inl e \<Rightarrow> Inl e
           | Inr i \<Rightarrow> Inr \<lparr>publicKey = k, keyId = i, isOrg = b\<rparr>))"

definition getPublicKey ::
  "world \<Rightarrow> string \<Rightarrow> string \<Rightarrow> event list \<Rightarrow> (js_exn + keyInfo) \<times> event list" where
  "getPublicKey w repo pat tr =
     (let tr1 = tr @ [Fetch (repo_key_request repo pat)] in
      case fetch_fn w tr (repo_key_request repo pat) of
        Inl e \<Rightarrow> (Inl e, tr1)
      | Inr r1 \<Rightarrow>
          (case json_body r1 of
             Inl e \<Rightarrow> (Inl e, tr1)
           | Inr data1 \<Rightarrow>
               if status r1 = 404 then
                 (let tr2 = tr1 @ [Fetch (org_key_request repo pat)] in
                  case fetch_fn w tr1 (org_key_request repo pat) of
                    Inl e \<Rightarrow> (Inl e, tr2)
                  | Inr r2 \<Rightarrow>
                      (case json_body r2 of
                         Inl e \<Rightarrow> (Inl e, tr2)
                       | Inr data2 \<Rightarrow>
                           if status r2 = 404
                           then (Inl (JsError
                                   ''Neither repository nor organization public key found''), tr2)
                           else (key_info_of data2 True, tr2)))
               else (key_info_of data1 False, tr1)))"

section \<open>setSecret\<close>

record setResult =
  res_status :: int
  res_statusText :: string
  res_success :: bool
  res_response :: string

definition secret_url :: "string \<Rightarrow> string \<Rightarrow> keyInfo \<Rightarrow> string" where
  "secret_url key repo ki =
     (if isOrg ki then ''https://api.github.com/orgs/'' @ org_of repo @ ''/actions/secrets/'' @ key
      else ''https://api.github.com/repos/'' @ repo @ ''/actions/secrets/'' @ key)"

definition put_request :: "string \<Rightarrow> string \<Rightarrow> string \<Rightarrow> string \<Rightarrow> keyInfo \<Rightarrow> request" where
  "put_request key encryptedValue repo pat ki =
     \<lparr>url = secret_url key repo ki,
      http_method = PUT,
      headers = [(''Authorization'', ''token '' @ pat),
                 (''Accept'', ''application/vnd.github.v3+json''),
                 (''Content-Type'', ''application/json'')],
      body = Some \<lparr>encrypted_value = encryptedValue, key_id = keyId ki,
                   visibility = (if isOrg ki then Some ''all'' else None)\<rparr>\<rparr>"

definition setSecret ::
  "world \<Rightarrow> string \<Rightarrow> string \<Rightarrow> string \<Rightarrow> string \<Rightarrow> keyInfo \<Rightarrow> event list
     \<Rightarrow> (js_exn + setResult) \<times> event list" where
  "setSecret w key val repo pat ki tr =
     (let tr1 = tr @ [Encrypt val (publicKey ki)] in
      case encrypt_fn w tr val (publicKey ki) of
        Inl e \<Rightarrow> (Inl e, tr1)
      | Inr encryptedValue \<Rightarrow>
          (let req = put_request key encryptedValue repo pat ki;
               tr2 = tr1 @ [Fetch req] in
           case fetch_fn w tr1 req of
             Inl e \<Rightarrow> (Inl e, tr2)
           | Inr r \<Rightarrow>
               (let responseBody =
                      (case text_body r of
                         Inl e \<Rightarrow> ''Failed to read response body''
                       | Inr t \<Rightarrow> t)
                in (Inr \<lparr>res_status = status r, res_statusText = statusText r,
                         res_success = (status r = 201 \<or> status r = 204),
                         res_response = responseBody\<rparr>, tr2))))"

section \<open>The handler POST\<close>

text \<open>
  \<^verbatim>\<open>parseFormData\<close>: the three form fields as strings, absent fields as \<open>None\<close>
  (an uploaded file for \<^verbatim>\<open>env\<close> is represented by its text). A missing or empty field
  is rejected.
\<close>

record formData =
  form_repo :: "string option"
  form_pat :: "string option"
  form_env :: "string option"

definition parseFormData :: "formData \<Rightarrow> js_exn + (string \<times> string \<times> string)" where
  "parseFormData f =
     (case (form_repo f, form_pat f, form_env f) of
        (Some repo, Some pat, Some envText) \<Rightarrow>
          if repo = [] \<or> pat = [] \<or> envText = []
          then Inl (JsError ''Missing required parameters: repo, pat, or env'')
          else Inr (repo, pat, envText)
      | _ \<Rightarrow> Inl (JsError ''Missing required parameters: repo, pat, or env''))"

text \<open>An element of the \<^verbatim>\<open>results\<close> array; fields left out of the literal are \<open>None\<close>.\<close>

record resultEntry =
  entry_key :: string
  entry_success :: bool
  entry_status :: "int option"
  entry_statusText :: "string option"
  entry_response :: "string option"
  entry_error :: "string option"

record loopState =
  results :: "resultEntry list"
  failedSecrets :: "string list"
  successSecrets :: "string list"

definition init_loop :: loopState where
  "init_loop = \<lparr>results = [], failedSecrets = [], successSecrets = []\<rparr>"

text \<open>The body of \<^verbatim>\<open>for (const [key, value] of Object.entries(secrets))\<close> with its try/catch.\<close>

definition process_one ::
  "world \<Rightarrow> string \<Rightarrow> string \<Rightarrow> keyInfo \<Rightarrow> string \<times> string \<Rightarrow> loopState \<times> event list
     \<Rightarrow> loopState \<times> event list" where
  "process_one w repo pat ki kv acc =
     (case setSecret w (fst kv) (snd kv) repo pat ki (snd acc) of
        (Inr r, tr') \<Rightarrow>
          ((fst acc)\<lparr>
              results := results (fst acc) @
                [\<lparr>entry_key = fst kv, entry_success = res_success r,
                  entry_status = Some (res_status r),
                  entry_statusText = Some (res_statusText r),
                  entry_response = Some (res_response r), entry_error = None\<rparr>],
              failedSecrets :=
                (if \<not> res_success r then failedSecrets (fst acc) @ [fst kv]
                 else failedSecrets (fst acc)),
              successSecrets :=
                (if \<not> res_success r then successSecrets (fst acc)
                 else successSecrets (fst acc) @ [fst kv])\<rparr>, tr')
      | (Inl e, tr') \<Rightarrow>
          ((fst acc)\<lparr>
              results := results (fst acc) @
                [\<lparr>entry_key = fst kv, entry_success = False, entry_status = None,
                  entry_statusText = None, entry_response = None,
                  entry_error = Some (error_message e)\<rparr>],
              failedSecrets := failedSecrets (fst acc) @ [fst kv]\<rparr>, tr'))"

fun process_secrets ::
  "world \<Rightarrow> string \<Rightarrow> string \<Rightarrow> keyInfo \<Rightarrow> (string \<times> string) list \<Rightarrow> loopState \<times> event list
     \<Rightarrow> loopState \<times> event list" where
  "process_secrets w repo pat ki [] acc = acc"
| "process_secrets w repo pat ki (kv # rest) acc =
     process_secrets w repo pat ki rest (process_one w repo pat ki kv acc)"

text \<open>What \<^verbatim>\<open>NextResponse.json\<close> sends: the HTTP status and the two fields of the body.\<close>

record reply =
  reply_status :: int
  reply_success :: bool
  reply_variables :: "string list"

definition final_reply :: "loopState \<Rightarrow> reply" where
  "final_reply st =
     (if length (failedSecrets st) = 0
      then \<lparr>reply_status = 200, reply_success = True, reply_variables = successSecrets st\<rparr>
      else \<lparr>reply_status = 200, reply_success = False, reply_variables = failedSecrets st\<rparr>)"

text \<open>The outer \<^verbatim>\<open>catch\<close>.\<close>

definition error_reply :: "js_exn \<Rightarrow> reply" where
  "error_reply e = \<lparr>reply_status = 500, reply_success = False,
                    reply_variables = [error_message e]\<rparr>"

definition repo_check_request :: "string \<Rightarrow> string \<Rightarrow> request" where
  "repo_check_request repo pat =
     \<lparr>url = ''https://api.github.com/repos/'' @ repo,
      http_method = GET,
      headers = [(''Authorization'', ''token '' @ pat)],
      body = None\<rparr>"

definition POST :: "world \<Rightarrow> formData \<Rightarrow> event list \<Rightarrow> reply \<times> event list" where
  "POST w form tr =
     (case parseFormData form of
        Inl e \<Rightarrow> (error_reply e, tr)
      | Inr (repo, pat, envText) \<Rightarrow>
          (let tr1 = tr @ [Fetch (repo_check_request repo pat)] in
           case fetch_fn w tr (repo_check_request repo pat) of
             Inl e \<Rightarrow> (error_reply e, tr1)
           | Inr repoCheckResponse \<Rightarrow>
               if status repoCheckResponse = 404
               then (\<lparr>reply_status = 404, reply_success = False,
                      reply_variables = [''Repository access error'']\<rparr>, tr1)
               else
                 (case getPublicKey w repo pat tr1 of
                    (Inl e, tr2) \<Rightarrow> (error_reply e, tr2)
                  | (Inr ki, tr2) \<Rightarrow>
                      (let secrets = parseEnvContent envText;
                           fin = process_secrets w repo pat ki (Object_entries secrets)
                                   (init_loop, tr2)
                       in (final_reply (fst fin), snd fin)))))"

section \<open>Example inputs\<close>

text \<open>
  A small remote API used to run the definitions on concrete inputs: the repository
  \<^verbatim>\<open>acme/site\<close>, a status for the probe, for the repository-scoped and for the
  organization-scoped key lookup (a lookup answering 200 carries a key, any other an
  empty object), and an answer for each write chosen by its URL. Encryption succeeds
  when the public key is a string.
\<close>

definition api_response :: "int \<Rightarrow> jsval \<Rightarrow> response" where
  "api_response st d = \<lparr>status = st, statusText = [], json_body = Inr d, text_body = Inr []\<rparr>"

definition demo_key :: jsval where
  "demo_key = JObject [(''key_id'', JString ''568250167242549743''),
                       (''key'', JString ''2Sg8iYjAxxmI2LvUXpJjkYrMxURPc8r+dB7TJyvv1234'')]"

definition demo_world :: "int \<Rightarrow> int \<Rightarrow> int \<Rightarrow> (string \<Rightarrow> js_exn + int) \<Rightarrow> world" where
  "demo_world probe repo_key org_key put =
     \<lparr>fetch_fn = (\<lambda>tr rq.
         if http_method rq = PUT then
           (case put (url rq) of Inl e \<Rightarrow> Inl e | Inr st \<Rightarrow> Inr (api_response st JNull))
         else if url rq = ''https://api.github.com/repos/acme/site''
           then Inr (api_response probe (JObject []))
         else if url rq = ''https://api.github.com/repos/acme/site/actions/secrets/public-key''
           then Inr (api_response repo_key (if repo_key = 200 then demo_key else JObject []))
         else Inr (api_response org_key (if org_key = 200 then demo_key else JObject []))),
      encrypt_fn = (\<lambda>tr v k.
         case k of JString pk \<Rightarrow> Inr (''sealed:'' @ v)
                 | _ \<Rightarrow> Inl (JsError ''invalid public key''))\<rparr>"

definition demo_form :: "string \<Rightarrow> formData" where
  "demo_form env = \<lparr>form_repo = Some ''acme/site'', form_pat = Some ''ghp_token'',
                     form_env = Some env\<rparr>"

definition fail_B :: "string \<Rightarrow> js_exn + int" where
  "fail_B u = (if endsWith u ''/B'' then Inr 422 else Inr 201)"

definition reject_B :: "string \<Rightarrow> js_exn + int" where
  "reject_B u = (if endsWith u ''/B'' then Inl (JsError ''fetch failed'') else Inr 201)"

definition demo_env3 :: string where
  "demo_env3 = ''A=1'' @ [nl] @ ''B=2'' @ [nl] @ ''C=3''"

definition demo_ki :: keyInfo where
  "demo_ki = \<lparr>publicKey = JString ''2Sg8iYjAxxmI2LvUXpJjkYrMxURPc8r+dB7TJyvv1234'',
               keyId = JString ''568250167242549743'', isOrg = False\<rparr>"

definition demo_org_ki :: keyInfo where
  "demo_org_ki = \<lparr>publicKey = JString ''2Sg8iYjAxxmI2LvUXpJjkYrMxURPc8r+dB7TJyvv1234'',
                   keyId = JString ''568250167242549743'', isOrg = True\<rparr>"

definition demo_put :: "string \<Rightarrow> string \<Rightarrow> request" where
  "demo_put k v = put_request k (''sealed:'' @ v) ''acme/site'' ''ghp_token'' demo_ki"

definition demo_res :: "int \<Rightarrow> setResult" where
  "demo_res st = \<lparr>res_status = st, res_statusText = [],
                  res_success = (st = 201 \<or> st = 204), res_response = []\<rparr>"

definition demo_run :: "loopState \<times> event list" where
  "demo_run =
     process_secrets (demo_world 200 200 200 fail_B) ''acme/site'' ''ghp_token'' demo_ki
       (Object_entries (parseEnvContent demo_env3))
       (init_loop, [Fetch (repo_check_request ''acme/site'' ''ghp_token''),
                    Fetch (repo_key_request ''acme/site'' ''ghp_token'')])"

definition open_A :: pstate where
  "open_A = \<lparr>result = [], currentKey = ''A'', inValue = True, curValue = ''x''\<rparr>"

section \<open>Facts about strings and objects\<close>

lemma endsWith_dq: "endsWith l [dq] \<longleftrightarrow> l \<noteq> [] \<and> last l = dq"
proof (cases l rule: rev_cases)
  case Nil
  then show ?thesis by (simp add: endsWith_def)
next
  case (snoc b c)
  then show ?thesis by (simp add: endsWith_def)
qed

lemma endsWith_snoc_dq: "endsWith (b @ [dq]) [bsl, dq] \<longleftrightarrow> b \<noteq> [] \<and> last b = bsl"
proof (cases b rule: rev_cases)
  case Nil
  then show ?thesis by (simp add: endsWith_def)
next
  case (snoc b' c)
  then show ?thesis by (simp add: endsWith_def)
qed

lemma endsWith_bsl_dq_last:
  assumes "endsWith l [bsl, dq]"
  shows "l \<noteq> [] \<and> last l = dq"
proof -
  from assms have len: "2 \<le> length l" and d: "drop (length l - 2) l = [bsl, dq]"
    by (simp_all add: endsWith_def numeral_2_eq_2)
  from len have ne: "l \<noteq> []" by auto
  have "last (drop (length l - 2) l) = last l"
    using len by (intro last_drop) simp
  then show ?thesis using d ne by simp
qed

lemma match_kv_line:
  assumes "match_kv l = Some (k, v)"
  shows "l \<noteq> [] \<and> \<not> startsWith l ''#''"
proof (cases l)
  case Nil
  then show ?thesis using assms by (simp add: match_kv_def)
next
  case (Cons c cs)
  have "c \<noteq> CHR ''#''"
  proof
    assume "c = CHR ''#''"
    then have "takeWhile is_key_char l = []"
      using Cons by (simp add: is_key_char_def)
    then show False
      using assms by (simp add: match_kv_def split: list.splits)
  qed
  then show ?thesis using Cons by (simp add: startsWith_def)
qed

lemma map_of_obj_set:
  "k \<noteq> ''__proto__'' \<Longrightarrow>
     map_of (obj_set obj k' v) k = (if k = k' then Some v else map_of obj k)"
  by (simp add: obj_set_def update_conv')

lemma map_of_obj_set_same:
  "k \<noteq> ''__proto__'' \<Longrightarrow> map_of (obj_set obj k v) k = Some v"
  by (simp add: obj_set_def update_conv')

lemma map_of_obj_set_other:
  "k' \<noteq> k \<Longrightarrow> map_of (obj_set obj k v) k' = map_of obj k'"
  by (simp add: obj_set_def update_conv')

lemma distinct_obj_set:
  "distinct (map fst obj) \<Longrightarrow> distinct (map fst (obj_set obj k v))"
  by (simp add: obj_set_def distinct_update)

lemma mset_Object_entries: "mset (Object_entries obj) = mset obj"
  by (simp add: Object_entries_def)

section \<open>The parsed object\<close>

lemma distinct_step:
  "distinct (map fst (result s)) \<Longrightarrow> distinct (map fst (result (step s raw)))"
  by (simp add: step_def Let_def distinct_obj_set split: option.split prod.split)

lemma distinct_foldl_step:
  "distinct (map fst (result s)) \<Longrightarrow> distinct (map fst (result (foldl step s ls)))"
  by (induction ls arbitrary: s) (simp_all add: distinct_step)

lemma distinct_parseEnvContent: "distinct (map fst (parseEnvContent envContent))"
proof -
  have "distinct (map fst (result (foldl step init_pstate (split_nl envContent))))"
    by (rule distinct_foldl_step) (simp add: init_pstate_def)
  then show ?thesis
    by (simp add: parseEnvContent_def finish_def distinct_obj_set)
qed

lemma result_step:
  "result (step s raw)
     = (case assignment s raw of None \<Rightarrow> result s | Some (k, v) \<Rightarrow> obj_set (result s) k v)"
  by (simp add: step_def assignment_def Let_def split: option.split prod.split)

lemma map_of_finish_foldl:
  assumes "k \<noteq> ''__proto__''"
  shows "map_of (finish (foldl step s ls)) k
           = (case map_of (rev (assignments s ls)) k of
                None \<Rightarrow> map_of (result s) k
              | Some v \<Rightarrow> Some v)"
proof (induction ls arbitrary: s)
  case Nil
  show ?case
    using assms by (simp add: finish_def map_of_obj_set)
next
  case (Cons raw rest)
  have "map_of (finish (foldl step s (raw # rest))) k
          = (case map_of (rev (assignments (step s raw) rest)) k of
               None \<Rightarrow> map_of (result (step s raw)) k
             | Some v \<Rightarrow> Some v)"
    using Cons.IH [of "step s raw"] by simp
  also have "\<dots> = (case map_of (rev (assignments s (raw # rest))) k of
                      None \<Rightarrow> map_of (result s) k
                    | Some v \<Rightarrow> Some v)"
    using assms
    by (cases "assignment s raw")
       (auto simp: result_step map_of_obj_set map_add_def split: option.split)
  finally show ?case .
qed

text \<open>
  For every key other than \<^verbatim>\<open>__proto__\<close>, the parsed object binds the key to the value
  of the last assignment made for it, and leaves it unbound when there is none.
\<close>

lemma last_write_wins:
  assumes "k \<noteq> ''__proto__''"
  shows "map_of (parseEnvContent envContent) k
           = map_of (rev (assignments init_pstate (split_nl envContent))) k"
  using map_of_finish_foldl [OF assms, of init_pstate "split_nl envContent"]
  by (simp add: parseEnvContent_def init_pstate_def split: option.split)

lemma last_write_wins_example:
  "assignments init_pstate (split_nl (''A=1'' @ [nl] @ ''B=x'' @ [nl] @ ''A=2''))
     = [(''A'', ''1''), (''B'', ''x''), (''A'', ''2'')]"
  by code_simp

section \<open>A value ending in an escaped quote\<close>

text \<open>
  In the scanning state, a value that begins with a double quote and whose last
  character is not a double quote opens a multi-line value: the key is remembered and the
  buffer is the value without its first character.
\<close>

lemma open_quote_starts_multiline:
  assumes "\<not> inValue s" and "match_kv (trim raw) = Some (k, dq # rest)"
    and "rest \<noteq> []" and "last rest \<noteq> dq"
  shows "step s raw = s\<lparr>currentKey := k, inValue := True, curValue := rest\<rparr>"
proof -
  have l: "trim raw \<noteq> [] \<and> \<not> startsWith (trim raw) ''#''"
    using assms(2) by (rule match_kv_line)
  have e: "\<not> endsWith (dq # rest) [dq]"
    using assms(3,4) by (simp add: endsWith_dq)
  have e': "\<not> endsWith (dq # rest) [bsl, dq]"
    using assms(3,4) endsWith_bsl_dq_last [of "dq # rest"] by auto
  show ?thesis
    using assms(1,2) l e e' by (simp add: step_def startsWith_def)
qed

text \<open>
  C6 at the value \<^verbatim>\<open>"abc\"\<close>: \<^verbatim>\<open>value.endsWith('"')\<close> holds, so the conjunction in the
  source is false whatever precedes the quote; the line is stored at once as a
  single-line value with both end characters removed, and the parser stays in the
  scanning state. A following line \<^verbatim>\<open>more"\<close> is then no part of the value.
\<close>

theorem escaped_quote_value_is_single_line:
  "step init_pstate (''A='' @ [dq] @ ''abc'' @ [bsl, dq])
     = \<lparr>result = [(''A'', ''abc'' @ [bsl])], currentKey = [], inValue = False, curValue = []\<rparr>
   \<and> parseEnvContent (''A='' @ [dq] @ ''abc'' @ [bsl, dq] @ [nl] @ ''more'' @ [dq])
     = [(''A'', ''abc'' @ [bsl])]"
proof -
  have a: "step init_pstate (''A='' @ [dq] @ ''abc'' @ [bsl, dq])
     = \<lparr>result = [(''A'', ''abc'' @ [bsl])], currentKey = [], inValue = False, curValue = []\<rparr>"
    by (simp add: step_def init_pstate_def trim_def is_ws_def startsWith_def endsWith_def
        match_kv_def is_key_char_def is_line_term_def strip_quotes_def is_quote_def obj_set_def)
  have b: "parseEnvContent (''A='' @ [dq] @ ''abc'' @ [bsl, dq] @ [nl] @ ''more'' @ [dq])
     = [(''A'', ''abc'' @ [bsl])]"
    by code_simp
  show ?thesis using a b by simp
qed

section \<open>Lines inside a multi-line value\<close>

text \<open>
  C7 as stated does not hold: every line is trimmed, and dropped when it is then empty or
  begins with \<^verbatim>\<open>#\<close>, before the parser looks at its state. Inside a multi-line
  value the line \<^verbatim>\<open>  y  \<close> is appended as \<^verbatim>\<open>y\<close>, and a blank line and a line beginning
  with \<^verbatim>\<open>#\<close> are not appended at all.
\<close>

theorem raw_line_is_not_appended:
  "curValue (step open_A ''  y  '') = ''x'' @ [nl] @ ''y''
   \<and> curValue (step open_A ''  y  '') \<noteq> curValue open_A @ [nl] @ ''  y  ''
   \<and> curValue (step open_A []) \<noteq> curValue open_A @ [nl] @ []
   \<and> curValue (step open_A ''# note'') \<noteq> curValue open_A @ [nl] @ ''# note''
   \<and> parseEnvContent (''A='' @ [dq] @ ''x'' @ [nl] @ [nl] @ ''# note'' @ [nl]
                        @ ''  y'' @ [dq] @ ''  '')
       = [(''A'', ''x'' @ [nl] @ ''y'')]"
proof -
  have a: "curValue (step open_A ''  y  '') = ''x'' @ [nl] @ ''y''"
    by (simp add: step_def open_A_def trim_def is_ws_def startsWith_def endsWith_def)
  have b: "curValue (step open_A []) = ''x''"
    by (simp add: step_def open_A_def trim_def)
  have c: "curValue (step open_A ''# note'') = ''x''"
    by (simp add: step_def open_A_def trim_def is_ws_def startsWith_def)
  have d: "parseEnvContent (''A='' @ [dq] @ ''x'' @ [nl] @ [nl] @ ''# note'' @ [nl]
                             @ ''  y'' @ [dq] @ ''  '')
             = [(''A'', ''x'' @ [nl] @ ''y'')]"
    by code_simp
  show ?thesis
    using a b c d by (simp add: open_A_def)
qed

text \<open>
  C7, amended. For a line processed while \<^verbatim>\<open>inValue\<close> is set: if the trimmed line is empty
  or begins with \<^verbatim>\<open>#\<close> the state is unchanged; if the trimmed line is \<open>front\<close> followed by
  a double quote that no backslash precedes, the state returns to scanning with the
  buffer cleared, the value stored under the remembered key (any key but
  \<^verbatim>\<open>__proto__\<close>) is the buffer, a newline and \<open>front\<close>, and the other keys keep their
  values; in every other case the buffer grows by a newline and the trimmed line and the
  rest of the state is unchanged.
\<close>

theorem multiline_line_handling:
  assumes "inValue s"
  shows "(trim raw = [] \<or> startsWith (trim raw) ''#'' \<longrightarrow> step s raw = s)
       \<and> (trim raw = front @ [dq] \<and> \<not> startsWith (trim raw) ''#''
            \<and> (front = [] \<or> last front \<noteq> bsl)
          \<longrightarrow> inValue (step s raw) = False \<and> currentKey (step s raw) = []
              \<and> curValue (step s raw) = []
              \<and> (currentKey s \<noteq> ''__proto__''
                  \<longrightarrow> map_of (result (step s raw)) (currentKey s)
                        = Some (curValue s @ [nl] @ front))
              \<and> (k \<noteq> currentKey s
                  \<longrightarrow> map_of (result (step s raw)) k = map_of (result s) k))
       \<and> (trim raw \<noteq> [] \<and> \<not> startsWith (trim raw) ''#''
            \<and> (last (trim raw) \<noteq> dq \<or> trim raw = front @ [bsl, dq])
          \<longrightarrow> step s raw = s\<lparr>curValue := curValue s @ [nl] @ trim raw\<rparr>)"
proof (intro conjI impI)
  assume "trim raw = [] \<or> startsWith (trim raw) ''#''"
  then show "step s raw = s"
    by (auto simp: step_def)
next
  assume a: "trim raw = front @ [dq] \<and> \<not> startsWith (trim raw) ''#''
               \<and> (front = [] \<or> last front \<noteq> bsl)"
  then have e: "endsWith (trim raw) [dq] \<and> \<not> endsWith (trim raw) [bsl, dq]"
    by (auto simp: endsWith_dq endsWith_snoc_dq)
  have st: "step s raw
              = s\<lparr>result := obj_set (result s) (currentKey s) (curValue s @ [nl] @ front),
                  currentKey := [], inValue := False, curValue := []\<rparr>"
    using a e assms by (auto simp: step_def Let_def)
  show "inValue (step s raw) = False" "currentKey (step s raw) = []" "curValue (step s raw) = []"
    using st by simp_all
  show "map_of (result (step s raw)) (currentKey s) = Some (curValue s @ [nl] @ front)"
    if "currentKey s \<noteq> ''__proto__''"
    using st that by (simp add: map_of_obj_set_same)
  show "map_of (result (step s raw)) k = map_of (result s) k" if "k \<noteq> currentKey s"
    using st that by (simp add: map_of_obj_set_other)
next
  assume a: "trim raw \<noteq> [] \<and> \<not> startsWith (trim raw) ''#''
               \<and> (last (trim raw) \<noteq> dq \<or> trim raw = front @ [bsl, dq])"
  then have "\<not> (endsWith (trim raw) [dq] \<and> \<not> endsWith (trim raw) [bsl, dq])"
    by (auto simp: endsWith_dq) (simp add: endsWith_def)
  then show "step s raw = s\<lparr>curValue := curValue s @ [nl] @ trim raw\<rparr>"
    using a assms by (auto simp: step_def)
qed

lemma demo_trims:
  "trim ''# note'' = ''# note''"
  "trim (''  y'' @ [dq]) = ''y'' @ [dq]"
  "trim ''  y  '' = ''y''"
  by (simp_all add: trim_def is_ws_def)

theorem multiline_line_handling_witness:
  "step open_A ''# note'' = open_A
   \<and> inValue (step open_A (''  y'' @ [dq])) = False
   \<and> map_of (result (step open_A (''  y'' @ [dq]))) ''A'' = Some (''x'' @ [nl] @ ''y'')
   \<and> step open_A ''  y  '' = open_A\<lparr>curValue := ''x'' @ [nl] @ ''y''\<rparr>"
proof -
  have h: "inValue open_A"
    by (simp add: open_A_def)
  have p1: "trim ''# note'' = [] \<or> startsWith (trim ''# note'') ''#''"
    by (simp add: demo_trims startsWith_def)
  have p2: "trim (''  y'' @ [dq]) = ''y'' @ [dq] \<and> \<not> startsWith (trim (''  y'' @ [dq])) ''#''
              \<and> (''y'' = [] \<or> last ''y'' \<noteq> bsl)"
    by (simp add: trim_def is_ws_def startsWith_def)
  have p3: "trim ''  y  '' \<noteq> [] \<and> \<not> startsWith (trim ''  y  '') ''#''
              \<and> (last (trim ''  y  '') \<noteq> dq \<or> trim ''  y  '' = [] @ [bsl, dq])"
    by (simp add: demo_trims startsWith_def)
  have k: "currentKey open_A \<noteq> ''__proto__''" "currentKey open_A = ''A''" "curValue open_A = ''x''"
    by (simp_all add: open_A_def)
  note t1 = multiline_line_handling [OF h, where raw = "''# note''", THEN conjunct1, rule_format, OF p1]
  note t2 = multiline_line_handling [OF h, where raw = "''  y'' @ [dq]" and front = "''y''",
      THEN conjunct2, THEN conjunct1, rule_format, OF p2]
  note t3 = multiline_line_handling [OF h, where raw = "''  y  ''" and front = "[]",
      THEN conjunct2, THEN conjunct2, rule_format, OF p3]
  from t2 have c2: "inValue (step open_A (''  y'' @ [dq])) = False"
    and "currentKey open_A \<noteq> ''__proto__''
           \<longrightarrow> map_of (result (step open_A (''  y'' @ [dq]))) (currentKey open_A)
                 = Some (curValue open_A @ [nl] @ ''y'')"
    by blast+
  then have c3: "map_of (result (step open_A (''  y'' @ [dq]))) ''A'' = Some (''x'' @ [nl] @ ''y'')"
    using k by simp
  show ?thesis
    using t1 c2 c3 t3 by (simp add: demo_trims k)
qed

section \<open>Repeated keys\<close>

text \<open>
  C9 at the key \<^verbatim>\<open>__proto__\<close>: both lines are accepted, both assignments go to the
  inherited setter, and the parsed object has no property at all. The example of the
  claim itself, \<^verbatim>\<open>A=1\<close> followed by \<^verbatim>\<open>A=2\<close>, gives \<^verbatim>\<open>{A: "2"}\<close>.
\<close>

theorem proto_key_is_never_bound:
  "parseEnvContent (''__proto__=1'' @ [nl] @ ''__proto__=2'') = []
   \<and> parseEnvContent (''A=1'' @ [nl] @ ''A=2'') = [(''A'', ''2'')]"
proof -
  have a: "parseEnvContent (''__proto__=1'' @ [nl] @ ''__proto__=2'') = []"
    by code_simp
  have b: "parseEnvContent (''A=1'' @ [nl] @ ''A=2'') = [(''A'', ''2'')]"
    by code_simp
  show ?thesis using a b by simp
qed

section \<open>The loop over the secrets\<close>

lemma setSecret_success:
  "setSecret w k v repo pat ki tr = (Inr r, tr') \<Longrightarrow>
     res_success r = (res_status r = 201 \<or> res_status r = 204)"
  by (auto simp: setSecret_def Let_def split: sum.splits)

lemma process_one_lists:
  "(failedSecrets (fst (process_one w repo pat ki kv acc)) = failedSecrets (fst acc) @ [fst kv]
      \<and> successSecrets (fst (process_one w repo pat ki kv acc)) = successSecrets (fst acc))
   \<or> (failedSecrets (fst (process_one w repo pat ki kv acc)) = failedSecrets (fst acc)
      \<and> successSecrets (fst (process_one w repo pat ki kv acc)) = successSecrets (fst acc) @ [fst kv])"
  by (simp add: process_one_def split: prod.split sum.split)

lemma process_one_mset:
  "mset (failedSecrets (fst (process_one w repo pat ki kv acc)))
     + mset (successSecrets (fst (process_one w repo pat ki kv acc)))
   = mset (failedSecrets (fst acc)) + mset (successSecrets (fst acc)) + {#fst kv#}"
  using process_one_lists [of w repo pat ki kv acc] by auto

lemma process_secrets_mset:
  "mset (failedSecrets (fst (process_secrets w repo pat ki es acc)))
     + mset (successSecrets (fst (process_secrets w repo pat ki es acc)))
   = mset (failedSecrets (fst acc)) + mset (successSecrets (fst acc)) + mset (map fst es)"
proof (induction es arbitrary: acc)
  case Nil
  show ?case by simp
next
  case (Cons kv rest)
  show ?case
    by (simp add: Cons.IH process_one_mset)
qed

lemma setSecret_failure:
  assumes "encrypt_fn w tr v (publicKey ki) = Inl e
       \<or> (encrypt_fn w tr v (publicKey ki) = Inr ev
           \<and> fetch_fn w (tr @ [Encrypt v (publicKey ki)]) (put_request k ev repo pat ki) = Inl e)
       \<or> (encrypt_fn w tr v (publicKey ki) = Inr ev
           \<and> fetch_fn w (tr @ [Encrypt v (publicKey ki)]) (put_request k ev repo pat ki) = Inr r
           \<and> status r \<noteq> 201 \<and> status r \<noteq> 204)"
  shows "\<exists>e' r'. fst (setSecret w k v repo pat ki tr) = Inl e'
           \<or> (fst (setSecret w k v repo pat ki tr) = Inr r'
               \<and> res_status r' \<noteq> 201 \<and> res_status r' \<noteq> 204)"
  using assms by (auto simp: setSecret_def Let_def)

lemma process_one_failure:
  assumes "setSecret w k v repo pat ki tr = (out, tr1)"
    and "out = Inl e \<or> (out = Inr r \<and> res_status r \<noteq> 201 \<and> res_status r \<noteq> 204)"
  shows "\<exists>entry. process_one w repo pat ki (k, v) (st, tr)
           = (st\<lparr>results := results st @ [entry],
                 failedSecrets := failedSecrets st @ [k]\<rparr>, tr1)
         \<and> entry_key entry = k \<and> \<not> entry_success entry"
  using assms setSecret_success [of w k v repo pat ki tr r tr1]
  by (auto simp: process_one_def)

lemma failed_grows:
  "set (failedSecrets (fst acc))
     \<subseteq> set (failedSecrets (fst (process_secrets w repo pat ki es acc)))"
proof (induction es arbitrary: acc)
  case Nil
  show ?case by simp
next
  case (Cons kv rest)
  have "set (failedSecrets (fst acc))
          \<subseteq> set (failedSecrets (fst (process_one w repo pat ki kv acc)))"
    using process_one_lists [of w repo pat ki kv acc] by auto
  also have "\<dots> \<subseteq> set (failedSecrets (fst (process_secrets w repo pat ki rest
                                              (process_one w repo pat ki kv acc))))"
    by (rule Cons.IH)
  finally show ?case by simp
qed

lemma process_one_results:
  "map entry_key (results (fst (process_one w repo pat ki kv acc)))
     = map entry_key (results (fst acc)) @ [fst kv]"
  by (simp add: process_one_def split: prod.split sum.split)

lemma process_secrets_results:
  "map entry_key (results (fst (process_secrets w repo pat ki es acc)))
     = map entry_key (results (fst acc)) @ map fst es"
  by (induction es arbitrary: acc) (simp_all add: process_one_results)

lemma process_one_trace:
  "snd (process_one w repo pat ki kv acc) = snd (setSecret w (fst kv) (snd kv) repo pat ki (snd acc))"
  by (simp add: process_one_def split: prod.split sum.split)

section \<open>The example world\<close>

lemma demo_form_ok:
  "env \<noteq> [] \<Longrightarrow> parseFormData (demo_form env) = Inr (''acme/site'', ''ghp_token'', env)"
  by (simp add: parseFormData_def demo_form_def)

lemma demo_probe:
  "fetch_fn (demo_world p k g put) tr (repo_check_request ''acme/site'' ''ghp_token'')
     = Inr (api_response p (JObject []))"
  by (simp add: demo_world_def repo_check_request_def)

lemma demo_repo_key:
  "getPublicKey (demo_world p 200 g put) ''acme/site'' ''ghp_token'' tr
     = (Inr demo_ki, tr @ [Fetch (repo_key_request ''acme/site'' ''ghp_token'')])"
  by (simp add: getPublicKey_def demo_world_def repo_key_request_def api_response_def
      key_info_of_def get_prop_def demo_key_def demo_ki_def)

lemma demo_key_lookups:
  "fetch_fn (demo_world p k g put) tr (repo_key_request ''acme/site'' ''ghp_token'')
     = Inr (api_response k (if k = 200 then demo_key else JObject []))"
  "fetch_fn (demo_world p k g put) tr (org_key_request ''acme/site'' ''ghp_token'')
     = Inr (api_response g (if g = 200 then demo_key else JObject []))"
  by (simp_all add: demo_world_def repo_key_request_def org_key_request_def org_of_def)

lemma demo_setSecret:
  "setSecret (demo_world p q g put) k v ''acme/site'' ''ghp_token'' demo_ki tr
     = (case put (secret_url k ''acme/site'' demo_ki) of
          Inl e \<Rightarrow> Inl e
        | Inr st \<Rightarrow> Inr (demo_res st),
        tr @ [Encrypt v (publicKey demo_ki), Fetch (demo_put k v)])"
  by (simp add: setSecret_def demo_world_def put_request_def demo_put_def demo_res_def
      api_response_def demo_ki_def Let_def split: sum.split)

lemma fail_B_urls:
  "fail_B (secret_url ''A'' ''acme/site'' demo_ki) = Inr 201"
  "fail_B (secret_url ''B'' ''acme/site'' demo_ki) = Inr 422"
  "fail_B (secret_url ''C'' ''acme/site'' demo_ki) = Inr 201"
  by (simp_all add: fail_B_def secret_url_def demo_ki_def endsWith_def)

section \<open>The report of a run\<close>

text \<open>
  C1. Whenever a run of \<^verbatim>\<open>POST\<close> reaches the loop over the secrets (the form is complete,
  the probe answers with a status other than 404 and \<^verbatim>\<open>getPublicKey\<close> returns), the reply
  is built from the final state of the loop, and in that state \<^verbatim>\<open>successSecrets\<close> and
  \<^verbatim>\<open>failedSecrets\<close> are disjoint, hold no key twice, together hold exactly the keys of
  the parsed object, and the reply reports success exactly when \<^verbatim>\<open>failedSecrets\<close> is empty.
\<close>

theorem report_partitions_keys:
  assumes "parseFormData form = Inr (repo, pat, envText)"
    and "fetch_fn w tr (repo_check_request repo pat) = Inr rc"
    and "status rc \<noteq> 404"
    and "getPublicKey w repo pat (tr @ [Fetch (repo_check_request repo pat)]) = (Inr ki, tr2)"
    and "process_secrets w repo pat ki (Object_entries (parseEnvContent envText)) (init_loop, tr2)
           = (st, tr3)"
  shows "POST w form tr = (final_reply st, tr3)
         \<and> set (successSecrets st) \<inter> set (failedSecrets st) = {}
         \<and> set (successSecrets st) \<union> set (failedSecrets st) = fst ` set (parseEnvContent envText)
         \<and> distinct (successSecrets st @ failedSecrets st)
         \<and> length (successSecrets st) + length (failedSecrets st) = length (parseEnvContent envText)
         \<and> (reply_success (final_reply st) \<longleftrightarrow> failedSecrets st = [])"
proof -
  let ?es = "Object_entries (parseEnvContent envText)"
  have post: "POST w form tr = (final_reply st, tr3)"
    using assms by (simp add: POST_def Let_def)
  have "mset (failedSecrets st) + mset (successSecrets st) = mset (map fst ?es)"
    using process_secrets_mset [of w repo pat ki ?es "(init_loop, tr2)"] assms(5)
    by (simp add: init_loop_def)
  then have m: "mset (successSecrets st @ failedSecrets st) = mset (map fst (parseEnvContent envText))"
    by (simp add: mset_Object_entries add.commute)
  have d: "distinct (successSecrets st @ failedSecrets st)"
    using m distinct_parseEnvContent [of envText] by (metis mset_eq_imp_distinct_iff)
  have s: "set (successSecrets st @ failedSecrets st) = set (map fst (parseEnvContent envText))"
    using m by (metis set_mset_mset)
  have l: "length (successSecrets st @ failedSecrets st) = length (map fst (parseEnvContent envText))"
    using m by (metis size_mset)
  have r: "reply_success (final_reply st) \<longleftrightarrow> failedSecrets st = []"
    by (simp add: final_reply_def)
  from d have i: "set (successSecrets st) \<inter> set (failedSecrets st) = {}" by simp
  from s have u: "set (successSecrets st) \<union> set (failedSecrets st) = fst ` set (parseEnvContent envText)"
    by simp
  from l have l': "length (successSecrets st) + length (failedSecrets st) = length (parseEnvContent envText)"
    by simp
  show ?thesis using post i u d l' r by blast
qed

theorem report_partitions_keys_witness:
  "POST (demo_world 200 200 200 fail_B) (demo_form demo_env3) []
     = (final_reply (fst demo_run), snd demo_run)
   \<and> set (successSecrets (fst demo_run)) \<inter> set (failedSecrets (fst demo_run)) = {}
   \<and> set (successSecrets (fst demo_run)) \<union> set (failedSecrets (fst demo_run))
       = {''A'', ''B'', ''C''}"
proof -
  let ?w = "demo_world 200 200 200 fail_B"
  let ?tr2 = "[Fetch (repo_check_request ''acme/site'' ''ghp_token''),
               Fetch (repo_key_request ''acme/site'' ''ghp_token'')]"
  have h1: "parseFormData (demo_form demo_env3) = Inr (''acme/site'', ''ghp_token'', demo_env3)"
    by (rule demo_form_ok) (simp add: demo_env3_def)
  have h2: "fetch_fn ?w [] (repo_check_request ''acme/site'' ''ghp_token'')
              = Inr (api_response 200 (JObject []))"
    by (rule demo_probe)
  have h3: "status (api_response 200 (JObject [])) \<noteq> 404"
    by (simp add: api_response_def)
  have h4: "getPublicKey ?w ''acme/site'' ''ghp_token''
              ([] @ [Fetch (repo_check_request ''acme/site'' ''ghp_token'')]) = (Inr demo_ki, ?tr2)"
    by (simp add: demo_repo_key)
  have h5: "process_secrets ?w ''acme/site'' ''ghp_token'' demo_ki
              (Object_entries (parseEnvContent demo_env3)) (init_loop, ?tr2)
            = (fst demo_run, snd demo_run)"
    by (simp add: demo_run_def)
  have keys: "fst ` set (parseEnvContent demo_env3) = {''A'', ''B'', ''C''}"
    by code_simp
  show ?thesis
    using report_partitions_keys [OF h1 h2 h3 h4 h5] keys by simp
qed

section \<open>Failures inside the loop\<close>

text \<open>
  C2. A failing \<^verbatim>\<open>setSecret\<close> for one key, whether it throws (encryption or a rejected
  request) or returns a status other than 201 and 204, is absorbed by the iteration: the
  key is appended to \<^verbatim>\<open>failedSecrets\<close>, \<^verbatim>\<open>successSecrets\<close> is unchanged, and the loop goes
  on with the remaining entries, each of which gets its own element of \<^verbatim>\<open>results\<close>.
  For three entries whose writes answer 201, a status outside 200..299, and 201, the loop
  ends with \<^verbatim>\<open>successSecrets\<close> holding the first and third key and \<^verbatim>\<open>failedSecrets\<close> the
  second, and the reply reports failure.
\<close>

theorem failure_is_isolated:
  "((encrypt_fn w tr v (publicKey ki) = Inl e
       \<or> (encrypt_fn w tr v (publicKey ki) = Inr ev
           \<and> fetch_fn w (tr @ [Encrypt v (publicKey ki)]) (put_request k ev repo pat ki) = Inl e)
       \<or> (encrypt_fn w tr v (publicKey ki) = Inr ev
           \<and> fetch_fn w (tr @ [Encrypt v (publicKey ki)]) (put_request k ev repo pat ki) = Inr r
           \<and> status r \<noteq> 201 \<and> status r \<noteq> 204))
    \<longrightarrow> (\<exists>st_next. process_secrets w repo pat ki ((k, v) # rest) (st, tr)
                  = process_secrets w repo pat ki rest
                      (st_next, snd (setSecret w k v repo pat ki tr))
               \<and> failedSecrets st_next = failedSecrets st @ [k]
               \<and> successSecrets st_next = successSecrets st)
        \<and> k \<in> set (failedSecrets (fst (process_secrets w repo pat ki ((k, v) # rest) (st, tr))))
        \<and> map entry_key (results (fst (process_secrets w repo pat ki ((k, v) # rest) (st, tr))))
            = map entry_key (results st) @ k # map fst rest)
   \<and> (setSecret w ka va repo pat ki t_s = (Inr ra, t_a) \<and> res_status ra = 201
      \<and> setSecret w kb vb repo pat ki t_a = (Inr rb, t_b)
      \<and> (res_status rb < 200 \<or> 299 < res_status rb)
      \<and> setSecret w kc vc repo pat ki t_b = (Inr rc, t_c) \<and> res_status rc = 201
    \<longrightarrow> successSecrets (fst (process_secrets w repo pat ki [(ka, va), (kb, vb), (kc, vc)]
                                 (init_loop, t_s))) = [ka, kc]
        \<and> failedSecrets (fst (process_secrets w repo pat ki [(ka, va), (kb, vb), (kc, vc)]
                                 (init_loop, t_s))) = [kb]
        \<and> snd (process_secrets w repo pat ki [(ka, va), (kb, vb), (kc, vc)] (init_loop, t_s)) = t_c
        \<and> final_reply (fst (process_secrets w repo pat ki [(ka, va), (kb, vb), (kc, vc)]
                               (init_loop, t_s)))
            = \<lparr>reply_status = 200, reply_success = False, reply_variables = [kb]\<rparr>)"
proof (intro conjI impI)
  let ?tr' = "snd (setSecret w k v repo pat ki tr)"
  assume a: "encrypt_fn w tr v (publicKey ki) = Inl e
       \<or> (encrypt_fn w tr v (publicKey ki) = Inr ev
           \<and> fetch_fn w (tr @ [Encrypt v (publicKey ki)]) (put_request k ev repo pat ki) = Inl e)
       \<or> (encrypt_fn w tr v (publicKey ki) = Inr ev
           \<and> fetch_fn w (tr @ [Encrypt v (publicKey ki)]) (put_request k ev repo pat ki) = Inr r
           \<and> status r \<noteq> 201 \<and> status r \<noteq> 204)"
  have f: "\<exists>e' r'. fst (setSecret w k v repo pat ki tr) = Inl e'
             \<or> (fst (setSecret w k v repo pat ki tr) = Inr r'
                 \<and> res_status r' \<noteq> 201 \<and> res_status r' \<noteq> 204)"
    using a by (rule setSecret_failure)
  then obtain e' r' entry where
    p: "process_one w repo pat ki (k, v) (st, tr)
          = (st\<lparr>results := results st @ [entry], failedSecrets := failedSecrets st @ [k]\<rparr>, ?tr')"
    using process_one_failure [of w k v repo pat ki tr "fst (setSecret w k v repo pat ki tr)" ?tr' _ _ st]
    by auto
  let ?st_next = "st\<lparr>results := results st @ [entry], failedSecrets := failedSecrets st @ [k]\<rparr>"
  have "process_secrets w repo pat ki ((k, v) # rest) (st, tr)
          = process_secrets w repo pat ki rest (?st_next, ?tr')
        \<and> failedSecrets ?st_next = failedSecrets st @ [k]
        \<and> successSecrets ?st_next = successSecrets st"
    using p by simp
  then show "\<exists>st_next. process_secrets w repo pat ki ((k, v) # rest) (st, tr)
                  = process_secrets w repo pat ki rest (st_next, ?tr')
               \<and> failedSecrets st_next = failedSecrets st @ [k]
               \<and> successSecrets st_next = successSecrets st"
    by blast
  have "k \<in> set (failedSecrets (fst (?st_next, ?tr')))" by simp
  then have "k \<in> set (failedSecrets (fst (process_secrets w repo pat ki rest (?st_next, ?tr'))))"
    using failed_grows [of "(?st_next, ?tr')" w repo pat ki rest] by blast
  then show "k \<in> set (failedSecrets (fst (process_secrets w repo pat ki ((k, v) # rest) (st, tr))))"
    using p by simp
  show "map entry_key (results (fst (process_secrets w repo pat ki ((k, v) # rest) (st, tr))))
            = map entry_key (results st) @ k # map fst rest"
    using process_secrets_results [of w repo pat ki "(k, v) # rest" "(st, tr)"] by simp
next
  assume b: "setSecret w ka va repo pat ki t_s = (Inr ra, t_a) \<and> res_status ra = 201
      \<and> setSecret w kb vb repo pat ki t_a = (Inr rb, t_b)
      \<and> (res_status rb < 200 \<or> 299 < res_status rb)
      \<and> setSecret w kc vc repo pat ki t_b = (Inr rc, t_c) \<and> res_status rc = 201"
  have sa: "res_success ra" using b setSecret_success [of w ka va repo pat ki t_s ra t_a] by simp
  have sb: "\<not> res_success rb"
    using b setSecret_success [of w kb vb repo pat ki t_a rb t_b] by auto
  have sc: "res_success rc" using b setSecret_success [of w kc vc repo pat ki t_b rc t_c] by simp
  have run: "successSecrets (fst (process_secrets w repo pat ki [(ka, va), (kb, vb), (kc, vc)]
                                 (init_loop, t_s))) = [ka, kc]
        \<and> failedSecrets (fst (process_secrets w repo pat ki [(ka, va), (kb, vb), (kc, vc)]
                                 (init_loop, t_s))) = [kb]
        \<and> snd (process_secrets w repo pat ki [(ka, va), (kb, vb), (kc, vc)] (init_loop, t_s)) = t_c"
    using b sa sb sc by (simp add: process_one_def init_loop_def)
  from run show "successSecrets (fst (process_secrets w repo pat ki [(ka, va), (kb, vb), (kc, vc)]
                                 (init_loop, t_s))) = [ka, kc]" by simp
  from run show "failedSecrets (fst (process_secrets w repo pat ki [(ka, va), (kb, vb), (kc, vc)]
                                 (init_loop, t_s))) = [kb]" by simp
  from run show "snd (process_secrets w repo pat ki [(ka, va), (kb, vb), (kc, vc)] (init_loop, t_s)) = t_c"
    by simp
  from run show "final_reply (fst (process_secrets w repo pat ki [(ka, va), (kb, vb), (kc, vc)]
                               (init_loop, t_s)))
            = \<lparr>reply_status = 200, reply_success = False, reply_variables = [kb]\<rparr>"
    by (simp add: final_reply_def)
qed

theorem failure_is_isolated_witness:
  "''B'' \<in> set (failedSecrets (fst (process_secrets (demo_world 200 200 200 fail_B)
       ''acme/site'' ''ghp_token'' demo_ki [(''B'', ''2''), (''C'', ''3'')] (init_loop, []))))
   \<and> map entry_key (results (fst (process_secrets (demo_world 200 200 200 fail_B)
       ''acme/site'' ''ghp_token'' demo_ki [(''B'', ''2''), (''C'', ''3'')] (init_loop, []))))
      = [''B'', ''C'']
   \<and> successSecrets (fst (process_secrets (demo_world 200 200 200 fail_B)
       ''acme/site'' ''ghp_token'' demo_ki [(''A'', ''1''), (''B'', ''2''), (''C'', ''3'')]
       (init_loop, []))) = [''A'', ''C'']
   \<and> failedSecrets (fst (process_secrets (demo_world 200 200 200 fail_B)
       ''acme/site'' ''ghp_token'' demo_ki [(''A'', ''1''), (''B'', ''2''), (''C'', ''3'')]
       (init_loop, []))) = [''B'']"
proof -
  let ?w = "demo_world 200 200 200 fail_B"
  let ?ta = "[Encrypt ''1'' (publicKey demo_ki), Fetch (demo_put ''A'' ''1'')]"
  let ?tb = "[Encrypt ''2'' (publicKey demo_ki), Fetch (demo_put ''B'' ''2'')]"
  let ?tc = "[Encrypt ''3'' (publicKey demo_ki), Fetch (demo_put ''C'' ''3'')]"
  have a: "setSecret ?w ''A'' ''1'' ''acme/site'' ''ghp_token'' demo_ki [] = (Inr (demo_res 201), ?ta)"
    by (simp add: demo_setSecret fail_B_urls)
  have b: "setSecret ?w ''B'' ''2'' ''acme/site'' ''ghp_token'' demo_ki tr
             = (Inr (demo_res 422), tr @ ?tb)" for tr
    by (simp add: demo_setSecret fail_B_urls)
  have c: "setSecret ?w ''C'' ''3'' ''acme/site'' ''ghp_token'' demo_ki (?ta @ ?tb)
             = (Inr (demo_res 201), (?ta @ ?tb) @ ?tc)"
    by (simp add: demo_setSecret fail_B_urls)
  have s: "res_status (demo_res n) = n" for n
    by (simp add: demo_res_def)
  note t = failure_is_isolated [where w = ?w and repo = "''acme/site''" and pat = "''ghp_token''"
      and ki = demo_ki and k = "''B''" and v = "''2''" and tr = "[]" and ev = "''sealed:2''"
      and e = "JsError []" and r = "api_response 422 JNull"
      and rest = "[(''C'', ''3'')]" and st = init_loop
      and ka = "''A''" and va = "''1''" and t_s = "[]" and ra = "demo_res 201" and t_a = ?ta
      and kb = "''B''" and vb = "''2''" and rb = "demo_res 422" and t_b = "?ta @ ?tb"
      and kc = "''C''" and vc = "''3''" and rc = "demo_res 201" and t_c = "(?ta @ ?tb) @ ?tc"]
  have g: "encrypt_fn ?w [] ''2'' (publicKey demo_ki) = Inl (JsError [])
       \<or> (encrypt_fn ?w [] ''2'' (publicKey demo_ki) = Inr ''sealed:2''
           \<and> fetch_fn ?w ([] @ [Encrypt ''2'' (publicKey demo_ki)])
                (put_request ''B'' ''sealed:2'' ''acme/site'' ''ghp_token'' demo_ki)
              = Inl (JsError []))
       \<or> (encrypt_fn ?w [] ''2'' (publicKey demo_ki) = Inr ''sealed:2''
           \<and> fetch_fn ?w ([] @ [Encrypt ''2'' (publicKey demo_ki)])
                (put_request ''B'' ''sealed:2'' ''acme/site'' ''ghp_token'' demo_ki)
              = Inr (api_response 422 JNull)
           \<and> status (api_response 422 JNull) \<noteq> 201 \<and> status (api_response 422 JNull) \<noteq> 204)"
    by (simp add: demo_world_def demo_ki_def put_request_def secret_url_def fail_B_def
        endsWith_def api_response_def)
  have p: "setSecret ?w ''A'' ''1'' ''acme/site'' ''ghp_token'' demo_ki [] = (Inr (demo_res 201), ?ta)
      \<and> res_status (demo_res 201) = 201
      \<and> setSecret ?w ''B'' ''2'' ''acme/site'' ''ghp_token'' demo_ki ?ta = (Inr (demo_res 422), ?ta @ ?tb)
      \<and> (res_status (demo_res 422) < 200 \<or> 299 < res_status (demo_res 422))
      \<and> setSecret ?w ''C'' ''3'' ''acme/site'' ''ghp_token'' demo_ki (?ta @ ?tb)
          = (Inr (demo_res 201), (?ta @ ?tb) @ ?tc)
      \<and> res_status (demo_res 201) = 201"
    using a b [of ?ta] c by (simp add: s)
  from t [THEN conjunct1, rule_format, OF g] t [THEN conjunct2, rule_format, OF p]
  show ?thesis by (simp add: init_loop_def)
qed

section \<open>A write request that gets no response\<close>

text \<open>
  C8 as stated does not hold: when \<^verbatim>\<open>fetch\<close> rejects, \<^verbatim>\<open>setSecret\<close> throws, and the
  element that the \<^verbatim>\<open>catch\<close> in \<^verbatim>\<open>POST\<close> pushes onto \<^verbatim>\<open>results\<close> has no status, no status
  text and no response body; the message is in its \<^verbatim>\<open>error\<close> field.
\<close>

theorem rejected_write_has_no_status:
  "setSecret (demo_world 200 200 200 reject_B) ''B'' ''2'' ''acme/site'' ''ghp_token'' demo_ki []
     = (Inl (JsError ''fetch failed''),
        [Encrypt ''2'' (publicKey demo_ki), Fetch (demo_put ''B'' ''2'')])
   \<and> results (fst (process_one (demo_world 200 200 200 reject_B) ''acme/site'' ''ghp_token''
                     demo_ki (''B'', ''2'') (init_loop, [])))
     = [\<lparr>entry_key = ''B'', entry_success = False, entry_status = None,
         entry_statusText = None, entry_response = None, entry_error = Some ''fetch failed''\<rparr>]"
proof -
  have u: "reject_B (secret_url ''B'' ''acme/site'' demo_ki) = Inl (JsError ''fetch failed'')"
    by (simp add: reject_B_def secret_url_def demo_ki_def endsWith_def)
  have s: "setSecret (demo_world 200 200 200 reject_B) ''B'' ''2'' ''acme/site'' ''ghp_token''
             demo_ki []
           = (Inl (JsError ''fetch failed''),
              [Encrypt ''2'' (publicKey demo_ki), Fetch (demo_put ''B'' ''2'')])"
    by (simp add: demo_setSecret u)
  show ?thesis
    by (simp add: process_one_def s init_loop_def error_message_def)
qed

text \<open>
  C8, amended. When the encryption succeeds and the write request is rejected with the
  thrown value \<open>e\<close>, the iteration appends the key to \<^verbatim>\<open>failedSecrets\<close> and pushes onto
  \<^verbatim>\<open>results\<close> an element with \<^verbatim>\<open>success: false\<close> and \<^verbatim>\<open>error\<close> set to the message of \<open>e\<close>
  (\<^verbatim>\<open>Unknown error\<close> when \<open>e\<close> is not an \<^verbatim>\<open>Error\<close>); the element has no \<^verbatim>\<open>status\<close>,
  \<^verbatim>\<open>statusText\<close> or \<^verbatim>\<open>response\<close>.
\<close>

theorem rejected_write_is_recorded:
  assumes "encrypt_fn w tr val (publicKey ki) = Inr encryptedValue"
    and "fetch_fn w (tr @ [Encrypt val (publicKey ki)]) (put_request key encryptedValue repo pat ki)
           = Inl e"
  shows "process_one w repo pat ki (key, val) (st, tr)
           = (st\<lparr>results := results st @
                   [\<lparr>entry_key = key, entry_success = False, entry_status = None,
                     entry_statusText = None, entry_response = None,
                     entry_error = Some (case e of JsError m \<Rightarrow> m
                                                 | JsNonError \<Rightarrow> ''Unknown error'')\<rparr>],
                 failedSecrets := failedSecrets st @ [key]\<rparr>,
              tr @ [Encrypt val (publicKey ki),
                    Fetch (put_request key encryptedValue repo pat ki)])"
  using assms by (simp add: process_one_def setSecret_def Let_def error_message_def)

theorem rejected_write_is_recorded_witness:
  "process_one (demo_world 200 200 200 reject_B) ''acme/site'' ''ghp_token'' demo_ki
       (''B'', ''2'') (init_loop, [])
     = (init_loop\<lparr>results := results init_loop @
                   [\<lparr>entry_key = ''B'', entry_success = False, entry_status = None,
                     entry_statusText = None, entry_response = None,
                     entry_error = Some ''fetch failed''\<rparr>],
                 failedSecrets := failedSecrets init_loop @ [''B'']\<rparr>,
        [Encrypt ''2'' (publicKey demo_ki),
         Fetch (put_request ''B'' ''sealed:2'' ''acme/site'' ''ghp_token'' demo_ki)])"
proof -
  let ?w = "demo_world 200 200 200 reject_B"
  have h1: "encrypt_fn ?w [] ''2'' (publicKey demo_ki) = Inr ''sealed:2''"
    by (simp add: demo_world_def demo_ki_def)
  have h2: "fetch_fn ?w ([] @ [Encrypt ''2'' (publicKey demo_ki)])
              (put_request ''B'' ''sealed:2'' ''acme/site'' ''ghp_token'' demo_ki)
            = Inl (JsError ''fetch failed'')"
    by (simp add: demo_world_def put_request_def secret_url_def demo_ki_def reject_B_def
        endsWith_def)
  show ?thesis
    using rejected_write_is_recorded [OF h1 h2, of init_loop] by simp
qed

section \<open>Fallback to the organization key\<close>

lemma getPublicKey_trace:
  "snd (getPublicKey w repo pat tr) = tr @ [Fetch (repo_key_request repo pat)]
   \<or> snd (getPublicKey w repo pat tr)
       = tr @ [Fetch (repo_key_request repo pat), Fetch (org_key_request repo pat)]"
  by (simp add: getPublicKey_def Let_def split: sum.split)

lemma put_request_org:
  "isOrg ki \<Longrightarrow> is_org_push repo (put_request key ev repo pat ki)"
  by (simp add: is_org_push_def put_request_def secret_url_def startsWith_def)

lemma setSecret_org_trace:
  assumes "isOrg ki"
  shows "\<exists>evs. snd (setSecret w key val repo pat ki tr) = tr @ evs \<and> list_all (org_event repo) evs"
proof (cases "encrypt_fn w tr val (publicKey ki)")
  case (Inl e)
  then have "snd (setSecret w key val repo pat ki tr) = tr @ [Encrypt val (publicKey ki)]"
    by (simp add: setSecret_def)
  then show ?thesis by (simp add: org_event_def)
next
  case (Inr ev)
  then have "snd (setSecret w key val repo pat ki tr)
               = tr @ [Encrypt val (publicKey ki), Fetch (put_request key ev repo pat ki)]"
    by (simp add: setSecret_def Let_def split: sum.split)
  then show ?thesis using put_request_org [OF assms] by (simp add: org_event_def)
qed

lemma process_secrets_org_trace:
  assumes "isOrg ki"
  shows "\<exists>evs. snd (process_secrets w repo pat ki es acc) = snd acc @ evs
               \<and> list_all (org_event repo) evs"
proof (induction es arbitrary: acc)
  case Nil
  show ?case by simp
next
  case (Cons kv rest)
  obtain e1 where e1: "snd (process_one w repo pat ki kv acc) = snd acc @ e1"
      "list_all (org_event repo) e1"
    using setSecret_org_trace [OF assms, of w "fst kv" "snd kv" repo pat "snd acc"]
    by (auto simp: process_one_trace)
  obtain e2 where e2: "snd (process_secrets w repo pat ki rest (process_one w repo pat ki kv acc))
                         = snd (process_one w repo pat ki kv acc) @ e2"
      "list_all (org_event repo) e2"
    using Cons.IH by blast
  have "snd (process_secrets w repo pat ki (kv # rest) acc) = snd acc @ (e1 @ e2)"
    using e1 e2 by simp
  moreover have "list_all (org_event repo) (e1 @ e2)"
    using e1 e2 by simp
  ultimately show ?case by blast
qed

text \<open>
  C4. When the repository-scoped public-key lookup answers 404 (with a JSON body, as the
  API does) and the organization-scoped lookup answers 200 with a JSON object,
  \<^verbatim>\<open>getPublicKey\<close> returns the key and key id of that object with \<^verbatim>\<open>isOrg: true\<close>. In a
  run of \<^verbatim>\<open>POST\<close> that gets its key this way, every event after the two lookups is an
  encryption or a PUT to \<^verbatim>\<open>orgs/<org>/actions/secrets/<key>\<close> whose body carries
  \<^verbatim>\<open>visibility: "all"\<close>.
\<close>

theorem organization_fallback:
  assumes "parseFormData form = Inr (repo, pat, envText)"
    and "fetch_fn w tr (repo_check_request repo pat) = Inr rc"
    and "status rc \<noteq> 404"
    and "fetch_fn w (tr @ [Fetch (repo_check_request repo pat)]) (repo_key_request repo pat) = Inr ra"
    and "status ra = 404"
    and "json_body ra = Inr da"
    and "fetch_fn w (tr @ [Fetch (repo_check_request repo pat), Fetch (repo_key_request repo pat)])
           (org_key_request repo pat) = Inr rb"
    and "status rb = 200"
    and "json_body rb = Inr (JObject props)"
  shows "\<exists>ki evs.
           getPublicKey w repo pat (tr @ [Fetch (repo_check_request repo pat)])
             = (Inr ki, tr @ [Fetch (repo_check_request repo pat), Fetch (repo_key_request repo pat),
                              Fetch (org_key_request repo pat)])
           \<and> isOrg ki
           \<and> publicKey ki = (case map_of props ''key'' of Some v \<Rightarrow> v | None \<Rightarrow> JUndefined)
           \<and> keyId ki = (case map_of props ''key_id'' of Some v \<Rightarrow> v | None \<Rightarrow> JUndefined)
           \<and> snd (POST w form tr)
               = tr @ [Fetch (repo_check_request repo pat), Fetch (repo_key_request repo pat),
                       Fetch (org_key_request repo pat)] @ evs
           \<and> list_all (org_event repo) evs"
proof -
  let ?tr1 = "tr @ [Fetch (repo_check_request repo pat)]"
  let ?tr3 = "tr @ [Fetch (repo_check_request repo pat), Fetch (repo_key_request repo pat),
                    Fetch (org_key_request repo pat)]"
  let ?ki = "\<lparr>publicKey = (case map_of props ''key'' of Some v \<Rightarrow> v | None \<Rightarrow> JUndefined),
              keyId = (case map_of props ''key_id'' of Some v \<Rightarrow> v | None \<Rightarrow> JUndefined),
              isOrg = True\<rparr>"
  have g: "getPublicKey w repo pat ?tr1 = (Inr ?ki, ?tr3)"
    using assms(4-9) by (simp add: getPublicKey_def Let_def key_info_of_def get_prop_def)
  have p: "POST w form tr
             = (final_reply (fst (process_secrets w repo pat ?ki
                                    (Object_entries (parseEnvContent envText)) (init_loop, ?tr3))),
                snd (process_secrets w repo pat ?ki
                       (Object_entries (parseEnvContent envText)) (init_loop, ?tr3)))"
    using assms(1-3) g by (simp add: POST_def Let_def)
  obtain evs where evs:
    "snd (process_secrets w repo pat ?ki (Object_entries (parseEnvContent envText))
            (init_loop, ?tr3)) = ?tr3 @ evs"
    "list_all (org_event repo) evs"
    using process_secrets_org_trace [of ?ki w repo pat "Object_entries (parseEnvContent envText)"
        "(init_loop, ?tr3)"]
    by auto
  have "snd (POST w form tr) = ?tr3 @ evs"
    using p evs(1) by simp
  then show ?thesis
    using g evs(2) by (intro exI [of _ ?ki] exI [of _ evs]) simp
qed

theorem organization_fallback_witness:
  "getPublicKey (demo_world 200 404 200 fail_B) ''acme/site'' ''ghp_token''
       [Fetch (repo_check_request ''acme/site'' ''ghp_token'')]
     = (Inr demo_org_ki,
        [Fetch (repo_check_request ''acme/site'' ''ghp_token''),
         Fetch (repo_key_request ''acme/site'' ''ghp_token''),
         Fetch (org_key_request ''acme/site'' ''ghp_token'')])
   \<and> list_all (org_event ''acme/site'')
         (drop 3 (snd (POST (demo_world 200 404 200 fail_B) (demo_form demo_env3) [])))"
proof -
  let ?w = "demo_world 200 404 200 fail_B"
  have h1: "parseFormData (demo_form demo_env3) = Inr (''acme/site'', ''ghp_token'', demo_env3)"
    by (rule demo_form_ok) (simp add: demo_env3_def)
  have h2: "fetch_fn ?w [] (repo_check_request ''acme/site'' ''ghp_token'')
              = Inr (api_response 200 (JObject []))"
    by (rule demo_probe)
  have h3: "status (api_response 200 (JObject [])) \<noteq> 404"
    by (simp add: api_response_def)
  have h4: "fetch_fn ?w ([] @ [Fetch (repo_check_request ''acme/site'' ''ghp_token'')])
              (repo_key_request ''acme/site'' ''ghp_token'') = Inr (api_response 404 (JObject []))"
    by (simp add: demo_key_lookups)
  have h5: "status (api_response 404 (JObject [])) = 404"
    by (simp add: api_response_def)
  have h6: "json_body (api_response 404 (JObject [])) = Inr (JObject [])"
    by (simp add: api_response_def)
  have h7: "fetch_fn ?w ([] @ [Fetch (repo_check_request ''acme/site'' ''ghp_token''),
                               Fetch (repo_key_request ''acme/site'' ''ghp_token'')])
              (org_key_request ''acme/site'' ''ghp_token'') = Inr (api_response 200 demo_key)"
    by (simp add: demo_key_lookups)
  have h8: "status (api_response 200 demo_key) = 200"
    by (simp add: api_response_def)
  have h9: "json_body (api_response 200 demo_key)
              = Inr (JObject [(''key_id'', JString ''568250167242549743''),
                              (''key'', JString ''2Sg8iYjAxxmI2LvUXpJjkYrMxURPc8r+dB7TJyvv1234'')])"
    by (simp add: api_response_def demo_key_def)
  obtain ki evs where r:
    "getPublicKey ?w ''acme/site'' ''ghp_token'' ([] @ [Fetch (repo_check_request ''acme/site'' ''ghp_token'')])
       = (Inr ki, [] @ [Fetch (repo_check_request ''acme/site'' ''ghp_token''),
                        Fetch (repo_key_request ''acme/site'' ''ghp_token''),
                        Fetch (org_key_request ''acme/site'' ''ghp_token'')])"
    "isOrg ki"
    "publicKey ki = (case map_of [(''key_id'', JString ''568250167242549743''),
                       (''key'', JString ''2Sg8iYjAxxmI2LvUXpJjkYrMxURPc8r+dB7TJyvv1234'')] ''key''
                     of Some v \<Rightarrow> v | None \<Rightarrow> JUndefined)"
    "keyId ki = (case map_of [(''key_id'', JString ''568250167242549743''),
                       (''key'', JString ''2Sg8iYjAxxmI2LvUXpJjkYrMxURPc8r+dB7TJyvv1234'')] ''key_id''
                     of Some v \<Rightarrow> v | None \<Rightarrow> JUndefined)"
    "snd (POST ?w (demo_form demo_env3) [])
       = [] @ [Fetch (repo_check_request ''acme/site'' ''ghp_token''),
               Fetch (repo_key_request ''acme/site'' ''ghp_token''),
               Fetch (org_key_request ''acme/site'' ''ghp_token'')] @ evs"
    "list_all (org_event ''acme/site'') evs"
    using organization_fallback [OF h1 h2 h3 h4 h5 h6 h7 h8 h9] by blast
  have "ki = demo_org_ki"
    using r(2-4) by (cases ki) (simp add: demo_org_ki_def)
  then show ?thesis using r(1,5,6) by simp
qed

section \<open>Other statuses at the key lookups\<close>

text \<open>
  C5 as stated does not hold: \<^verbatim>\<open>getPublicKey\<close> compares the status with 404 and with
  nothing else. A repository-scoped lookup answering 500 with a JSON object is returned as
  a key (with undefined \<^verbatim>\<open>publicKey\<close> and \<^verbatim>\<open>keyId\<close>), and so is an organization-scoped
  lookup answering 500 after a 404.
\<close>

theorem status_500_is_returned_as_key:
  "getPublicKey (demo_world 200 500 200 fail_B) ''acme/site'' ''ghp_token'' []
     = (Inr \<lparr>publicKey = JUndefined, keyId = JUndefined, isOrg = False\<rparr>,
        [Fetch (repo_key_request ''acme/site'' ''ghp_token'')])
   \<and> getPublicKey (demo_world 200 404 500 fail_B) ''acme/site'' ''ghp_token'' []
     = (Inr \<lparr>publicKey = JUndefined, keyId = JUndefined, isOrg = True\<rparr>,
        [Fetch (repo_key_request ''acme/site'' ''ghp_token''),
         Fetch (org_key_request ''acme/site'' ''ghp_token'')])"
  by (simp add: getPublicKey_def demo_key_lookups api_response_def key_info_of_def get_prop_def)

text \<open>
  C5, amended. A response with a status other than 404 whose body parses as a JSON object
  is taken as the key resolution whatever the status: at the repository-scoped lookup the
  result has \<^verbatim>\<open>isOrg: false\<close>, at the organization-scoped lookup (after a 404 with a JSON
  body) \<^verbatim>\<open>isOrg: true\<close>; \<^verbatim>\<open>publicKey\<close> and \<^verbatim>\<open>keyId\<close> are the object's \<^verbatim>\<open>key\<close> and
  \<^verbatim>\<open>key_id\<close>, undefined when absent.
\<close>

theorem other_status_is_not_an_error:
  "(fetch_fn w tr (repo_key_request repo pat) = Inr ra \<and> status ra \<noteq> 404
      \<and> json_body ra = Inr (JObject props)
    \<longrightarrow> getPublicKey w repo pat tr
          = (Inr \<lparr>publicKey = (case map_of props ''key'' of Some v \<Rightarrow> v | None \<Rightarrow> JUndefined),
                  keyId = (case map_of props ''key_id'' of Some v \<Rightarrow> v | None \<Rightarrow> JUndefined),
                  isOrg = False\<rparr>,
             tr @ [Fetch (repo_key_request repo pat)]))
   \<and> (fetch_fn w tr (repo_key_request repo pat) = Inr ra \<and> status ra = 404
      \<and> json_body ra = Inr da
      \<and> fetch_fn w (tr @ [Fetch (repo_key_request repo pat)]) (org_key_request repo pat) = Inr rb
      \<and> status rb \<noteq> 404 \<and> json_body rb = Inr (JObject props)
    \<longrightarrow> getPublicKey w repo pat tr
          = (Inr \<lparr>publicKey = (case map_of props ''key'' of Some v \<Rightarrow> v | None \<Rightarrow> JUndefined),
                  keyId = (case map_of props ''key_id'' of Some v \<Rightarrow> v | None \<Rightarrow> JUndefined),
                  isOrg = True\<rparr>,
             tr @ [Fetch (repo_key_request repo pat), Fetch (org_key_request repo pat)]))"
  by (simp add: getPublicKey_def Let_def key_info_of_def get_prop_def)

theorem other_status_is_not_an_error_witness:
  "getPublicKey (demo_world 200 403 200 fail_B) ''acme/site'' ''ghp_token'' []
     = (Inr \<lparr>publicKey = JUndefined, keyId = JUndefined, isOrg = False\<rparr>,
        [Fetch (repo_key_request ''acme/site'' ''ghp_token'')])
   \<and> getPublicKey (demo_world 200 404 403 fail_B) ''acme/site'' ''ghp_token'' []
     = (Inr \<lparr>publicKey = JUndefined, keyId = JUndefined, isOrg = True\<rparr>,
        [Fetch (repo_key_request ''acme/site'' ''ghp_token''),
         Fetch (org_key_request ''acme/site'' ''ghp_token'')])"
proof -
  have a: "fetch_fn (demo_world 200 403 200 fail_B) [] (repo_key_request ''acme/site'' ''ghp_token'')
             = Inr (api_response 403 (JObject []))
           \<and> status (api_response 403 (JObject [])) \<noteq> 404
           \<and> json_body (api_response 403 (JObject [])) = Inr (JObject [])"
    by (simp add: demo_key_lookups api_response_def)
  have b: "fetch_fn (demo_world 200 404 403 fail_B) [] (repo_key_request ''acme/site'' ''ghp_token'')
             = Inr (api_response 404 (JObject []))
           \<and> status (api_response 404 (JObject [])) = 404
           \<and> json_body (api_response 404 (JObject [])) = Inr (JObject [])
           \<and> fetch_fn (demo_world 200 404 403 fail_B)
                ([] @ [Fetch (repo_key_request ''acme/site'' ''ghp_token'')])
                (org_key_request ''acme/site'' ''ghp_token'') = Inr (api_response 403 (JObject []))
           \<and> status (api_response 403 (JObject [])) \<noteq> 404
           \<and> json_body (api_response 403 (JObject [])) = Inr (JObject [])"
    by (simp add: demo_key_lookups api_response_def)
  from other_status_is_not_an_error [THEN conjunct1, rule_format, OF a]
       other_status_is_not_an_error [THEN conjunct2, rule_format, OF b]
  show ?thesis by simp
qed

section \<open>The access probe\<close>

text \<open>
  C3. When the form is complete and the probe of the repository answers 404, \<^verbatim>\<open>POST\<close>
  replies at once with status 404, \<^verbatim>\<open>success: false\<close> and the single reason
  \<^verbatim>\<open>Repository access error\<close>. The probe is the only event of the run: no public-key
  lookup, no encryption and no write request is made. The status differs from the 500 of
  the generic failure reply, and the outcome is the same for every env text.
\<close>

theorem inaccessible_repository_fails_fast:
  assumes "parseFormData form = Inr (repo, pat, envText)"
    and "fetch_fn w tr (repo_check_request repo pat) = Inr rc"
    and "status rc = 404"
  shows "POST w form tr
           = (\<lparr>reply_status = 404, reply_success = False,
               reply_variables = [''Repository access error'']\<rparr>,
              tr @ [Fetch (repo_check_request repo pat)])
         \<and> reply_status (fst (POST w form tr)) \<noteq> reply_status (error_reply e)
         \<and> (parseFormData form' = Inr (repo, pat, envText') \<longrightarrow> POST w form' tr = POST w form tr)"
  using assms by (simp add: POST_def Let_def error_reply_def)

theorem inaccessible_repository_fails_fast_witness:
  "POST (demo_world 404 200 200 fail_B) (demo_form demo_env3) []
     = (\<lparr>reply_status = 404, reply_success = False,
         reply_variables = [''Repository access error'']\<rparr>,
        [Fetch (repo_check_request ''acme/site'' ''ghp_token'')])
   \<and> POST (demo_world 404 200 200 fail_B) (demo_form ''X=9'') []
       = POST (demo_world 404 200 200 fail_B) (demo_form demo_env3) []"
proof -
  have h1: "parseFormData (demo_form demo_env3) = Inr (''acme/site'', ''ghp_token'', demo_env3)"
    by (rule demo_form_ok) (simp add: demo_env3_def)
  have h1': "parseFormData (demo_form ''X=9'') = Inr (''acme/site'', ''ghp_token'', ''X=9'')"
    by (rule demo_form_ok) simp
  have h2: "fetch_fn (demo_world 404 200 200 fail_B) [] (repo_check_request ''acme/site'' ''ghp_token'')
              = Inr (api_response 404 (JObject []))"
    by (rule demo_probe)
  have h3: "status (api_response 404 (JObject [])) = 404"
    by (simp add: api_response_def)
  show ?thesis
    using inaccessible_repository_fails_fast
            [OF h1 h2 h3, where form' = "demo_form ''X=9''" and envText' = "''X=9''"] h1'
    by simp
qed

section \<open>An env text without secrets\<close>

text \<open>
  C10. When the form is complete, the probe answers with a status other than 404,
  \<^verbatim>\<open>getPublicKey\<close> returns and the env text parses to an object without properties, the
  run replies with \<^verbatim>\<open>success: true\<close> and an empty \<^verbatim>\<open>variables\<close> list, and the events of the
  run are the probe and the one or two public-key lookups only: no encryption and no
  write request.
\<close>

theorem empty_env_succeeds_without_writes:
  assumes "parseFormData form = Inr (repo, pat, envText)"
    and "fetch_fn w tr (repo_check_request repo pat) = Inr rc"
    and "status rc \<noteq> 404"
    and "getPublicKey w repo pat (tr @ [Fetch (repo_check_request repo pat)]) = (Inr ki, tr2)"
    and "parseEnvContent envText = []"
  shows "fst (POST w form tr)
           = \<lparr>reply_status = 200, reply_success = True, reply_variables = []\<rparr>
         \<and> (snd (POST w form tr)
               = tr @ [Fetch (repo_check_request repo pat), Fetch (repo_key_request repo pat)]
            \<or> snd (POST w form tr)
               = tr @ [Fetch (repo_check_request repo pat), Fetch (repo_key_request repo pat),
                       Fetch (org_key_request repo pat)])
         \<and> filter is_secret_op (snd (POST w form tr)) = filter is_secret_op tr"
proof -
  have post: "POST w form tr = (final_reply init_loop, tr2)"
    using assms by (simp add: POST_def Let_def Object_entries_def)
  have r: "final_reply init_loop
             = \<lparr>reply_status = 200, reply_success = True, reply_variables = []\<rparr>"
    by (simp add: final_reply_def init_loop_def)
  have t: "tr2 = tr @ [Fetch (repo_check_request repo pat), Fetch (repo_key_request repo pat)]
           \<or> tr2 = tr @ [Fetch (repo_check_request repo pat), Fetch (repo_key_request repo pat),
                        Fetch (org_key_request repo pat)]"
    using getPublicKey_trace [of w repo pat "tr @ [Fetch (repo_check_request repo pat)]"] assms(4)
    by simp
  have g: "\<not> is_secret_op (Fetch (repo_check_request repo pat))"
          "\<not> is_secret_op (Fetch (repo_key_request repo pat))"
          "\<not> is_secret_op (Fetch (org_key_request repo pat))"
    by (simp_all add: is_secret_op_def repo_check_request_def repo_key_request_def
        org_key_request_def)
  have f: "filter is_secret_op tr2 = filter is_secret_op tr"
    using t g by auto
  show ?thesis using post r t f by simp
qed

theorem empty_env_succeeds_without_writes_witness:
  "fst (POST (demo_world 200 200 200 fail_B) (demo_form ''# nothing to set'') [])
     = \<lparr>reply_status = 200, reply_success = True, reply_variables = []\<rparr>
   \<and> filter is_secret_op (snd (POST (demo_world 200 200 200 fail_B)
                                  (demo_form ''# nothing to set'') [])) = []"
proof -
  let ?w = "demo_world 200 200 200 fail_B"
  have h1: "parseFormData (demo_form ''# nothing to set'')
              = Inr (''acme/site'', ''ghp_token'', ''# nothing to set'')"
    by (rule demo_form_ok) simp
  have h2: "fetch_fn ?w [] (repo_check_request ''acme/site'' ''ghp_token'')
              = Inr (api_response 200 (JObject []))"
    by (rule demo_probe)
  have h3: "status (api_response 200 (JObject [])) \<noteq> 404"
    by (simp add: api_response_def)
  have h4: "getPublicKey ?w ''acme/site'' ''ghp_token''
              ([] @ [Fetch (repo_check_request ''acme/site'' ''ghp_token'')])
            = (Inr demo_ki, [Fetch (repo_check_request ''acme/site'' ''ghp_token''),
                             Fetch (repo_key_request ''acme/site'' ''ghp_token'')])"
    by (simp add: demo_repo_key)
  have h5: "parseEnvContent ''# nothing to set'' = []"
    by code_simp
  show ?thesis
    using empty_env_succeeds_without_writes [OF h1 h2 h3 h4 h5] by simp
qed

end
